theory Spec2Isabelle
  imports Main "HOL-Library.Word"
begin

unbundle bit_operations_syntax

section \<open>The patch tool (patch.c)\<close>

text \<open>
  A shallow embedding of \<^verbatim>\<open>patch.c\<close>. A C string is the list of its characters before
  the terminating NUL; a byte is an 8-bit word; \<^verbatim>\<open>uint64_t\<close> is a 64-bit word and
  \<^verbatim>\<open>uint32_t\<close> a 32-bit word.
\<close>

type_synonym byte = "8 word"
type_synonym u32 = "32 word"
type_synonym u64 = "64 word"

subsection \<open>copystr: the escape decoder\<close>

text \<open>
  \<^verbatim>\<open>while (*str) { if (*str == '\\' && *(str + 1) == 'r') { *r++ = '\r'; str++; }
     else if (*str == '\\' && *(str + 1) == 'n') { *r++ = '\n'; str++; }
     else { *r++ = *str; } str++; }\<close>
  The character \<^verbatim>\<open>0x5C\<close> is the backslash, \<^verbatim>\<open>0x0D\<close> is CR and \<^verbatim>\<open>0x0A\<close> is LF.
  In the one-character case the character after it is the terminator, which is neither
  \<^verbatim>\<open>'r'\<close> nor \<^verbatim>\<open>'n'\<close>.
\<close>

fun copystr :: "string \<Rightarrow> string" where
  "copystr [] = []"
| "copystr [c] = [c]"
| "copystr (c # d # cs) =
     (if c = CHR 0x5C \<and> d = CHR ''r'' then CHR 0x0D # copystr cs
      else if c = CHR 0x5C \<and> d = CHR ''n'' then CHR 0x0A # copystr cs
      else c # copystr (d # cs))"

text \<open>
  The same loop over the argument as it lies in memory: \<open>mem\<close> is the array the pointer
  \<^verbatim>\<open>str\<close> walks, \<open>i\<close> the pointer's index. A read outside the array is \<open>None\<close>, and
  so is every run that makes one. \<^verbatim>\<open>&&\<close> reads \<^verbatim>\<open>*(str + 1)\<close> only when
  \<^verbatim>\<open>*str\<close> is a backslash.
\<close>

definition rd :: "char list \<Rightarrow> nat \<Rightarrow> char option" where
  "rd mem i = (if i < length mem then Some (mem ! i) else None)"

function copystr_mem :: "char list \<Rightarrow> nat \<Rightarrow> string option" where
  "copystr_mem mem i =
     (case rd mem i of
        None \<Rightarrow> None
      | Some c \<Rightarrow>
          if c = CHR 0x00 then Some []
          else if c = CHR 0x5C then
            (case rd mem (i + 1) of
               None \<Rightarrow> None
             | Some d \<Rightarrow>
                 if d = CHR ''r'' then map_option ((#) (CHR 0x0D)) (copystr_mem mem (i + 2))
                 else if d = CHR ''n'' then map_option ((#) (CHR 0x0A)) (copystr_mem mem (i + 2))
                 else map_option ((#) c) (copystr_mem mem (i + 1)))
          else map_option ((#) c) (copystr_mem mem (i + 1)))"
  by pat_completeness auto
termination
  by (relation "measure (\<lambda>(mem, i). length mem - i)")
     (auto simp: rd_def split: if_splits)

declare copystr_mem.simps [simp del]

subsection \<open>data_type and data_type_for\<close>

text \<open>
  \<^verbatim>\<open>enum data_type { type_db = 1, type_dw = 2, type_dd = 4, type_dq = 8, type_str = 0 };\<close>
  The enumerator's value is the number of bytes \<^verbatim>\<open>main\<close> asks \<^verbatim>\<open>fwrite\<close> for.
\<close>

datatype data_type = type_db | type_dw | type_dd | type_dq | type_str

fun data_type_val :: "data_type \<Rightarrow> nat" where
  "data_type_val type_db = 1"
| "data_type_val type_dw = 2"
| "data_type_val type_dd = 4"
| "data_type_val type_dq = 8"
| "data_type_val type_str = 0"

definition data_type_for :: "string \<Rightarrow> data_type" where
  "data_type_for arg =
     (if arg = ''dw'' then type_dw
      else if arg = ''dd'' then type_dd
      else if arg = ''dq'' then type_dq
      else if arg = ''str'' then type_str
      else type_db)"

subsection \<open>integer_for\<close>

text \<open>
  \<^verbatim>\<open>uint64_t value = strtoll(arg, NULL, 10); return value;\<close>
  \<^verbatim>\<open>strtoll\<close> belongs to the C library; it is modelled from the C standard (7.22.1.4):
  white space is skipped, an optional sign is read, then the longest run of decimal
  digits; with no digit the result is 0; a value outside the range of \<^verbatim>\<open>long long\<close>
  gives \<^verbatim>\<open>LLONG_MAX\<close> or \<^verbatim>\<open>LLONG_MIN\<close>. The conversion to \<^verbatim>\<open>uint64_t\<close> is modulo \<open>2^64\<close>.
\<close>

definition isspace :: "char \<Rightarrow> bool" where
  "isspace c = (c = CHR 0x20 \<or> (9 \<le> (of_char c :: nat) \<and> (of_char c :: nat) \<le> 13))"

definition isdigit :: "char \<Rightarrow> bool" where
  "isdigit c = (48 \<le> (of_char c :: nat) \<and> (of_char c :: nat) \<le> 57)"

fun digits_val :: "nat \<Rightarrow> string \<Rightarrow> nat" where
  "digits_val acc [] = acc"
| "digits_val acc (c # cs) =
     (if isdigit c then digits_val (acc * 10 + (of_char c - 48)) cs else acc)"

definition strtoll :: "string \<Rightarrow> int" where
  "strtoll s =
     (let t = dropWhile isspace s;
          neg = (t \<noteq> [] \<and> hd t = CHR ''-'');
          u = (if t \<noteq> [] \<and> (hd t = CHR ''-'' \<or> hd t = CHR ''+'') then tl t else t);
          n = int (digits_val 0 u)
      in if neg then max (- n) (- (2 ^ 63)) else min n (2 ^ 63 - 1))"

definition integer_for :: "string \<Rightarrow> u64" where
  "integer_for arg = word_of_int (strtoll arg)"

subsection \<open>The integer encoder\<close>

text \<open>
  \<^verbatim>\<open>uint8_t bytes[8] = { 0 };
  switch (type) {
    case type_dq: bytes[7] = ((v >> 56) & 0xFF); bytes[6] = ((v >> 48) & 0xFF);
                  bytes[5] = ((v >> 40) & 0xFF); bytes[4] = ((v >> 32) & 0xFF);
    case type_dd: bytes[3] = ((v >> 24) & 0xFF); bytes[2] = ((v >> 16) & 0xFF);
    case type_dw: bytes[1] = ((v >> 8) & 0xFF);
    case type_db: bytes[0] = (v & 0xFF);
    default: break; }\<close>
  No case ends in \<^verbatim>\<open>break\<close>: control falls from the case entered through every later one.
\<close>

definition int_bytes :: "data_type \<Rightarrow> u64 \<Rightarrow> byte list" where
  "int_bytes ty v =
     (let bytes = replicate 8 (0 :: byte);
          bytes = (if ty = type_dq
                   then bytes[7 := ucast (drop_bit 56 v AND 0xFF),
                              6 := ucast (drop_bit 48 v AND 0xFF),
                              5 := ucast (drop_bit 40 v AND 0xFF),
                              4 := ucast (drop_bit 32 v AND 0xFF)]
                   else bytes);
          bytes = (if ty = type_dq \<or> ty = type_dd
                   then bytes[3 := ucast (drop_bit 24 v AND 0xFF),
                              2 := ucast (drop_bit 16 v AND 0xFF)]
                   else bytes);
          bytes = (if ty = type_dq \<or> ty = type_dd \<or> ty = type_dw
                   then bytes[1 := ucast (drop_bit 8 v AND 0xFF)]
                   else bytes);
          bytes = (if ty = type_dq \<or> ty = type_dd \<or> ty = type_dw \<or> ty = type_db
                   then bytes[0 := ucast (v AND 0xFF)]
                   else bytes)
      in bytes)"

subsection \<open>The host: memory, path expansion, the file stream\<close>

text \<open>
  What the C library and the system decide is a parameter of the model.
  \<^item> \<open>wordexp\<close>: the words \<^verbatim>\<open>wordexp(3)\<close> expands a path to; \<open>None\<close> when it fails.
  \<^item> \<open>heap\<close>: the size of the largest block \<^verbatim>\<open>malloc\<close> gives; for a larger one it
    returns \<^verbatim>\<open>NULL\<close>. A block of one byte is always there.
  \<^item> \<open>bufsiz\<close>: the size of the stream's buffer.
  \<^item> \<open>accepts\<close>: how many bytes the file takes from the stream before a write error.
  \<^item> \<open>seek_max\<close>: the largest offset \<^verbatim>\<open>fseek\<close> accepts.
  \<^item> \<open>hole\<close>: the byte the file system shows between the old end of a file and data
    written beyond it.
  The files that \<^verbatim>\<open>fopen(path, "r+")\<close> can open are a map from paths to contents.
  The small blocks that \<^verbatim>\<open>copystr\<close> and \<^verbatim>\<open>resolve_path\<close> take with \<^verbatim>\<open>calloc\<close> for
  copies of the arguments are taken to be there too.
\<close>

record host =
  wordexp :: "string \<Rightarrow> string list option"
  heap :: nat
  bufsiz :: nat
  accepts :: nat
  seek_max :: nat
  hole :: byte

type_synonym filesys = "string \<rightharpoonup> byte list"

subsection \<open>The string encoder\<close>

text \<open>
  \<^verbatim>\<open>uint32_t data_in_len = strlen(data_in);
  char *buffer = malloc(length + 1);
  memset(buffer, pad_value, length);
  memcpy(buffer, data_in, (data_in_len > length) ? length : data_in_len);\<close>
  The result is the first \<^verbatim>\<open>length\<close> bytes of the buffer, which are the bytes
  \<^verbatim>\<open>fwrite\<close> is given. \<^verbatim>\<open>strlen\<close>'s result is cut to 32 bits by the assignment.
  The pointer \<^verbatim>\<open>malloc\<close> returns is not tested. When \<^verbatim>\<open>length + 1\<close> wraps around to 0
  the block is empty or \<^verbatim>\<open>NULL\<close> and \<^verbatim>\<open>memset\<close> stores \<open>2^64 - 1\<close> bytes outside it;
  when the host has no block of \<^verbatim>\<open>length + 1\<close> bytes the pointer is \<^verbatim>\<open>NULL\<close> and
  \<^verbatim>\<open>memset\<close> stores \<^verbatim>\<open>length\<close> bytes through it. Both are undefined behaviour:
  \<open>None\<close>. With \<^verbatim>\<open>length\<close> 0 the block has one byte, nothing is stored or copied, and
  the buffer given to \<^verbatim>\<open>fwrite\<close> is empty.
\<close>

definition byte_of :: "char \<Rightarrow> byte" where
  "byte_of c = of_char c"

definition str_buffer :: "host \<Rightarrow> string \<Rightarrow> u64 \<Rightarrow> byte \<Rightarrow> byte list option" where
  "str_buffer h data_in length_arg pad_value =
     (let data_in_len = (word_of_nat (length data_in) :: u32);
          n = (if (ucast data_in_len :: u64) > length_arg then length_arg
               else ucast data_in_len)
      in if length_arg + 1 = 0 then None
         else if heap h < unat (length_arg + 1) \<and> length_arg \<noteq> 0 then None
         else Some (map byte_of (take (unat n) data_in)
                    @ drop (unat n) (replicate (unat length_arg) pad_value)))"

subsection \<open>resolve_path\<close>

text \<open>
  \<^verbatim>\<open>wordexp(path, &exp_result, 0); len = strlen(exp_result.we_wordv[0]); ...\<close>
  The result of \<^verbatim>\<open>wordexp\<close> is not checked: when it fails, or yields no word,
  \<^verbatim>\<open>we_wordv[0]\<close> is not a string and \<^verbatim>\<open>strlen\<close> on it is undefined behaviour
  (\<open>None\<close>). Otherwise the first word is copied.
\<close>

definition resolve_path :: "host \<Rightarrow> string \<Rightarrow> string option" where
  "resolve_path h path =
     (case wordexp h path of
        None \<Rightarrow> None
      | Some [] \<Rightarrow> None
      | Some (w # ws) \<Rightarrow> Some w)"

subsection \<open>The stream: fseek, fwrite, fclose\<close>

text \<open>
  \<^verbatim>\<open>fseek(fp, offset, SEEK_SET)\<close>: the \<^verbatim>\<open>uint64_t\<close> offset is converted to \<^verbatim>\<open>long\<close>
  (64 bits, two's complement). A negative offset, or one beyond what the host accepts,
  makes \<^verbatim>\<open>fseek\<close> fail and leaves the position where it was; \<^verbatim>\<open>main\<close> does not look
  at the result.
\<close>

definition fseek :: "host \<Rightarrow> nat \<Rightarrow> u64 \<Rightarrow> nat" where
  "fseek h pos offset =
     (if 0 \<le> sint offset \<and> nat (sint offset) \<le> seek_max h then nat (sint offset) else pos)"

text \<open>
  Writing \<open>bs\<close> at position \<open>pos\<close> of a file: the bytes replace what was there; a file
  shorter than \<open>pos\<close> is extended, and nothing is written for an empty \<open>bs\<close>.
\<close>

definition pwrite :: "byte \<Rightarrow> byte list \<Rightarrow> nat \<Rightarrow> byte list \<Rightarrow> byte list" where
  "pwrite gap content pos bs =
     (if bs = [] then content
      else take pos content @ replicate (pos - length content) gap @ bs
           @ drop (pos + length bs) content)"

text \<open>
  The stream \<^verbatim>\<open>fopen\<close> returns is fully buffered: its position, the bytes in its
  buffer that the file has not received yet, and the contents of the file.
  \<^verbatim>\<open>fwrite(buf, 1, n, fp)\<close>, on the empty buffer that \<^verbatim>\<open>main\<close> calls it with: a request
  that fits the buffer is stored there and \<open>n\<close> is returned, whatever the file would
  take; a larger request goes to the file, and the count returned is the number of bytes
  the file took. Flushing sends the buffer to the file, which takes what it accepts; it
  happens in \<^verbatim>\<open>fclose\<close>, and for a stream left open when the C runtime ends the process.
\<close>

record stdio =
  fpos :: nat
  pending :: "byte list"
  disk :: "byte list"

definition fwrite :: "host \<Rightarrow> stdio \<Rightarrow> byte list \<Rightarrow> nat \<Rightarrow> nat \<times> stdio" where
  "fwrite h st buf n =
     (if n \<le> bufsiz h then (n, st\<lparr>pending := take n buf\<rparr>)
      else (let r = min n (accepts h)
            in (r, st\<lparr>disk := pwrite (hole h) (disk st) (fpos st) (take r buf)\<rparr>)))"

definition fflush :: "host \<Rightarrow> stdio \<Rightarrow> stdio" where
  "fflush h st =
     st\<lparr>disk := pwrite (hole h) (disk st) (fpos st) (take (accepts h) (pending st)),
        pending := []\<rparr>"

subsection \<open>main\<close>

text \<open>
  The variables of \<^verbatim>\<open>main\<close> that the option loop sets, with the lines printed to
  standard output and the lines \<^verbatim>\<open>getopt\<close> wrote to standard error. A \<^verbatim>\<open>NULL\<close> pointer
  is \<open>None\<close>.
\<close>

record vars =
  file_path :: "string option"
  offset :: u64
  type :: data_type
  length_arg :: u64
  pad_value :: byte
  data_in :: "string option"
  printed :: "string list"
  complaints :: "string list"

definition init_vars :: vars where
  "init_vars = \<lparr>file_path = None, offset = 0, type = type_db, length_arg = 1, pad_value = 0,
                 data_in = None, printed = [], complaints = []\<rparr>"

text \<open>
  \<^verbatim>\<open>getopt(argc, argv, "f:a:t:l:p:vd:")\<close> belongs to the C library. The model starts from
  what it delivers: the option characters in order, each with its \<^verbatim>\<open>optarg\<close> (unused
  for \<^verbatim>\<open>-v\<close>). For an option it does not know, or one that lacks its argument,
  \<^verbatim>\<open>getopt\<close> writes a line to standard error and returns \<^verbatim>\<open>'?'\<close>, which takes the
  \<^verbatim>\<open>default\<close> branch; the string delivered with \<^verbatim>\<open>'?'\<close> is that line. One turn of the
  \<^verbatim>\<open>switch\<close>:
\<close>

definition opt_case :: "host \<Rightarrow> char \<Rightarrow> string \<Rightarrow> vars \<Rightarrow> vars option" where
  "opt_case h c optarg v =
     (if c = CHR ''f'' then
        (case resolve_path h optarg of
           None \<Rightarrow> None
         | Some p \<Rightarrow> Some (v\<lparr>file_path := Some p\<rparr>))
      else if c = CHR ''a'' then Some (v\<lparr>offset := integer_for optarg\<rparr>)
      else if c = CHR ''t'' then Some (v\<lparr>type := data_type_for optarg\<rparr>)
      else if c = CHR ''l'' then Some (v\<lparr>length_arg := integer_for optarg\<rparr>)
      else if c = CHR ''p'' then Some (v\<lparr>pad_value := ucast (integer_for optarg AND 0xFF)\<rparr>)
      else if c = CHR ''d'' then Some (v\<lparr>data_in := Some (copystr optarg)\<rparr>)
      else if c = CHR ''v'' then
        Some (v\<lparr>printed := printed v @ [''patch tool v0.1 -- Copyright (c) 2019 Tom Hancocks'']\<rparr>)
      else if c = CHR ''?'' then Some (v\<lparr>complaints := complaints v @ [optarg]\<rparr>)
      else Some v)"

fun scan_opts :: "host \<Rightarrow> (char \<times> string) list \<Rightarrow> vars \<Rightarrow> vars option" where
  "scan_opts h [] v = Some v"
| "scan_opts h ((c, optarg) # rest) v =
     (case opt_case h c optarg v of
        None \<Rightarrow> None
      | Some v' \<Rightarrow> scan_opts h rest v')"

text \<open>
  What a run leaves behind: how it ended (\<open>Crash\<close> is undefined behaviour: a \<^verbatim>\<open>NULL\<close>
  pointer given to \<^verbatim>\<open>strtoll\<close> or \<^verbatim>\<open>strlen\<close>, or a store outside a block; such a run
  is taken to end there, with the files as they were, and nothing is said about what it
  printed), the lines on standard output and standard error, the files once the process
  has ended, whether the stream was never opened, was still open at \<^verbatim>\<open>return\<close>, or was
  closed by \<^verbatim>\<open>fclose\<close>, and for the call of \<^verbatim>\<open>fwrite\<close>, when it is reached, the number
  of bytes asked for and the number returned.
\<close>

datatype status = Exit nat | Crash

datatype stream = Unopened | Open | Closed

record run =
  status :: status
  stdout :: "string list"
  stderr :: "string list"
  files :: filesys
  fp :: stream
  written :: "(nat \<times> nat) option"

text \<open>The decimal numeral \<^verbatim>\<open>%llu\<close> prints.\<close>

fun dec_nat :: "nat \<Rightarrow> string" where
  "dec_nat n =
     (if n < 10 then [char_of (48 + n)] else dec_nat (n div 10) @ [char_of (48 + n mod 10)])"

declare dec_nat.simps [simp del]

definition short_write_msg :: "nat \<Rightarrow> string" where
  "short_write_msg r =
     ''Something went wrong when patching file. Wrote '' @ dec_nat r @ '' bytes.''"

definition crashed :: "filesys \<Rightarrow> stream \<Rightarrow> run" where
  "crashed fs s = \<lparr>status = Crash, stdout = [], stderr = [], files = fs, fp = s,
                    written = None\<rparr>"

text \<open>
  After the write, \<^verbatim>\<open>return 3\<close> leaves with the stream open, and the runtime flushes
  it; the other path calls \<^verbatim>\<open>fclose(fp)\<close>, which flushes it, and does not look at the
  result of \<^verbatim>\<open>fclose\<close> before \<^verbatim>\<open>return 0\<close>.
\<close>

definition main :: "host \<Rightarrow> filesys \<Rightarrow> (char \<times> string) list \<Rightarrow> run" where
  "main h fs opts =
     (case scan_opts h opts init_vars of
        None \<Rightarrow> crashed fs Unopened
      | Some v \<Rightarrow>
          (case file_path v of
             None \<Rightarrow>
               \<lparr>status = Exit 1, stdout = printed v,
                stderr = complaints v @ [''No binary file supplied.''],
                files = fs, fp = Unopened, written = None\<rparr>
           | Some path \<Rightarrow>
               (case fs path of
                  None \<Rightarrow>
                    \<lparr>status = Exit 2, stdout = printed v,
                     stderr = complaints v @ [''Failed to open specified binary file.''],
                     files = fs, fp = Unopened, written = None\<rparr>
                | Some content \<Rightarrow>
                    (let st = \<lparr>fpos = fseek h 0 (offset v), pending = [], disk = content\<rparr> in
                     if type v \<noteq> type_str then
                       (case data_in v of
                          None \<Rightarrow> crashed fs Open
                        | Some d \<Rightarrow>
                            (let bytes = int_bytes (type v) (integer_for d);
                                 n = data_type_val (type v);
                                 (r, st') = fwrite h st bytes n
                             in if r \<noteq> n then
                                  \<lparr>status = Exit 3, stdout = printed v,
                                   stderr = complaints v @ [short_write_msg r],
                                   files = fs(path \<mapsto> disk (fflush h st')), fp = Open,
                                   written = Some (n, r)\<rparr>
                                else
                                  \<lparr>status = Exit 0, stdout = printed v,
                                   stderr = complaints v,
                                   files = fs(path \<mapsto> disk (fflush h st')), fp = Closed,
                                   written = Some (n, r)\<rparr>))
                     else
                       (case data_in v of
                          None \<Rightarrow> crashed fs Open
                        | Some d \<Rightarrow>
                            (case str_buffer h d (length_arg v) (pad_value v) of
                               None \<Rightarrow> crashed fs Open
                             | Some buffer \<Rightarrow>
                                 (let n = unat (length_arg v);
                                      (r, st') = fwrite h st buffer n
                                  in if r \<noteq> n then
                                       \<lparr>status = Exit 3, stdout = printed v,
                                        stderr = complaints v @ [short_write_msg r],
                                        files = fs(path \<mapsto> disk (fflush h st')), fp = Open,
                                        written = Some (n, r)\<rparr>
                                     else
                                       \<lparr>status = Exit 0, stdout = printed v,
                                        stderr = complaints v,
                                        files = fs(path \<mapsto> disk (fflush h st')), fp = Closed,
                                        written = Some (n, r)\<rparr>)))))))"

subsection \<open>What the specification speaks of\<close>

text \<open>
  The little-endian encoding of \<open>n\<close> in \<open>w\<close> bytes, the decimal numeral of an integer as
  it is typed after \<^verbatim>\<open>-d\<close>, and the nearest value of a signed 64-bit integer.
\<close>

definition le_bytes :: "nat \<Rightarrow> nat \<Rightarrow> nat list" where
  "le_bytes w n = map (\<lambda>i. n div 256 ^ i mod 256) [0..<w]"

definition decimal :: "int \<Rightarrow> string" where
  "decimal v = (if v < 0 then CHR ''-'' # dec_nat (nat (- v)) else dec_nat (nat v))"

definition clamp_ll :: "int \<Rightarrow> int" where
  "clamp_ll v = max (- (2 ^ 63)) (min v (2 ^ 63 - 1))"

subsection \<open>A host for the examples\<close>

text \<open>
  A path expands to itself and the empty path to no word, \<^verbatim>\<open>malloc\<close> gives blocks of
  up to \<open>2^32\<close> bytes, the stream's buffer has 4096 bytes, the file takes \<open>k\<close> bytes,
  \<^verbatim>\<open>fseek\<close> accepts every offset up to \<^verbatim>\<open>LONG_MAX\<close>, and a hole reads as zero bytes.
\<close>

definition plain_host :: "nat \<Rightarrow> host" where
  "plain_host k = \<lparr>wordexp = (\<lambda>p. if p = [] then Some [] else Some [p]), heap = 2 ^ 32,
                    bufsiz = 4096, accepts = k, seek_max = 2 ^ 63 - 1, hole = 0\<rparr>"

subsection \<open>Properties of copystr\<close>

lemma copystr_no_backslash: "CHR 0x5C \<notin> set s \<Longrightarrow> copystr s = s"
  by (induction s rule: copystr.induct) auto

lemma copystr_length_le: "length (copystr s) \<le> length s"
  by (induction s rule: copystr.induct) auto

lemma copystr_length_ge: "(length s + 1) div 2 \<le> length (copystr s)"
  by (induction s rule: copystr.induct) auto

lemma copystr_snoc_backslash: "copystr (s @ [CHR 0x5C]) = copystr s @ [CHR 0x5C]"
proof (induction s rule: copystr.induct)
  case 1
  show ?case by simp
next
  case (2 c)
  show ?case by simp
next
  case (3 c d cs)
  show ?case
  proof (cases cs)
    case Nil
    with 3 show ?thesis by simp
  next
    case (Cons e es)
    with 3 show ?thesis by simp
  qed
qed

lemma copystr_append_backslash:
  "copystr (p @ CHR 0x5C # rest) = copystr p @ copystr (CHR 0x5C # rest)"
proof (induction p rule: copystr.induct)
  case 1
  show ?case by simp
next
  case (2 c)
  show ?case by simp
next
  case (3 c d cs)
  then show ?case by (cases cs) auto
qed

lemma rd_append_right: "rd (p @ c # rest) (length p) = Some c"
  by (simp add: rd_def)

lemma rd_append_right2: "rd (p @ c # d # rest) (Suc (length p)) = Some d"
  by (simp add: rd_def nth_append)

lemma copystr_mem_copystr:
  "CHR 0x00 \<notin> set s \<Longrightarrow> copystr_mem (p @ s @ [CHR 0x00]) (length p) = Some (copystr s)"
proof (induction s arbitrary: p rule: copystr.induct)
  case 1
  show ?case
    by (subst copystr_mem.simps) (simp add: rd_append_right)
next
  case (2 c)
  have nz: "c \<noteq> CHR 0x00" using 2 by simp
  have step: "copystr_mem ((p @ [c]) @ [] @ [CHR 0x00]) (length (p @ [c])) = Some []"
    by (subst copystr_mem.simps) (simp add: rd_def nth_append)
  show ?case
    using nz step
    by (subst copystr_mem.simps) (auto simp: rd_append_right rd_append_right2)
next
  case (3 c d cs)
  have nz: "c \<noteq> CHR 0x00" "d \<noteq> CHR 0x00" "CHR 0x00 \<notin> set cs" using 3 by auto
  have two: "copystr_mem ((p @ [c, d]) @ cs @ [CHR 0x00]) (length (p @ [c, d])) = Some (copystr cs)"
    if "c = CHR 0x5C \<and> (d = CHR ''r'' \<or> d = CHR ''n'')"
    using that 3 nz by (metis (no_types, lifting))
  have one: "copystr_mem ((p @ [c]) @ (d # cs) @ [CHR 0x00]) (length (p @ [c])) = Some (copystr (d # cs))"
    if "\<not> (c = CHR 0x5C \<and> (d = CHR ''r'' \<or> d = CHR ''n''))"
    using that 3 nz by (metis (no_types, lifting) set_ConsD)
  show ?case
    using nz one two
    by (subst copystr_mem.simps) (auto simp: rd_append_right rd_append_right2)
qed

subsection \<open>Decimal numerals and strtoll\<close>

lemma of_char_digit: "d < 10 \<Longrightarrow> (of_char (char_of (48 + d :: nat)) :: nat) = 48 + d"
  by (simp add: of_char_of)

lemma isdigit_char_of: "d < 10 \<Longrightarrow> isdigit (char_of (48 + d :: nat))"
  by (simp add: isdigit_def of_char_digit)

lemma dec_nat_all_digits: "\<forall>c \<in> set (dec_nat n). isdigit c"
proof (induction n rule: dec_nat.induct)
  case (1 n)
  show ?case
  proof (cases "n < 10")
    case True
    then show ?thesis by (subst dec_nat.simps) (simp add: isdigit_char_of)
  next
    case False
    have "n mod 10 < 10" by simp
    with False 1 show ?thesis
      by (subst dec_nat.simps) (simp add: isdigit_char_of)
  qed
qed

lemma dec_nat_not_Nil: "dec_nat n \<noteq> []"
  by (subst dec_nat.simps) simp

lemma digits_val_append:
  "\<forall>c \<in> set ds. isdigit c \<Longrightarrow> digits_val a (ds @ r) = digits_val (digits_val a ds) r"
  by (induction ds arbitrary: a) auto

lemma digits_val_dec_nat: "digits_val a (dec_nat n) = a * 10 ^ length (dec_nat n) + n"
proof (induction n arbitrary: a rule: dec_nat.induct)
  case (1 n)
  show ?case
  proof (cases "n < 10")
    case True
    then show ?thesis
      by (subst (1 2) dec_nat.simps) (simp add: isdigit_char_of of_char_digit)
  next
    case False
    have d: "n mod 10 < 10" by simp
    have "digits_val a (dec_nat (n div 10) @ [char_of (48 + n mod 10)])
          = digits_val (digits_val a (dec_nat (n div 10))) [char_of (48 + n mod 10)]"
      by (rule digits_val_append) (rule dec_nat_all_digits)
    also have "\<dots> = (a * 10 ^ length (dec_nat (n div 10)) + n div 10) * 10 + n mod 10"
      using False 1 d by (simp add: isdigit_char_of of_char_digit)
    also have "\<dots> = a * 10 ^ (length (dec_nat (n div 10)) + 1) + n"
      by (simp add: algebra_simps)
    finally show ?thesis
      using False by (subst (1 2) dec_nat.simps) simp
  qed
qed

lemma digits_val_0_dec_nat: "digits_val 0 (dec_nat n) = n"
  by (simp add: digits_val_dec_nat)

lemma isdigit_not_space: "isdigit c \<Longrightarrow> \<not> isspace c \<and> c \<noteq> CHR ''-'' \<and> c \<noteq> CHR ''+'' \<and> c \<noteq> CHR 0x5C"
  by (auto simp: isdigit_def isspace_def)

lemma hd_dec_nat: "isdigit (hd (dec_nat n))"
  using dec_nat_all_digits [of n] dec_nat_not_Nil [of n] by (cases "dec_nat n") auto

lemma strtoll_dec_nat: "strtoll (dec_nat n) = min (int n) (2 ^ 63 - 1)"
proof -
  obtain c cs where e: "dec_nat n = c # cs" using dec_nat_not_Nil [of n] by (cases "dec_nat n") auto
  have c: "isdigit c" using hd_dec_nat [of n] e by simp
  have "digits_val 0 (c # cs) = n" using digits_val_0_dec_nat [of n] e by simp
  then show ?thesis
    using isdigit_not_space [OF c] unfolding strtoll_def e by (simp add: Let_def)
qed

lemma strtoll_minus_dec_nat: "strtoll (CHR ''-'' # dec_nat n) = max (- int n) (- (2 ^ 63))"
  unfolding strtoll_def by (simp add: Let_def isspace_def digits_val_0_dec_nat)

lemma strtoll_decimal: "strtoll (decimal v) = clamp_ll v"
proof (cases "v < 0")
  case True
  then show ?thesis by (simp add: decimal_def strtoll_minus_dec_nat clamp_ll_def)
next
  case False
  then show ?thesis by (simp add: decimal_def strtoll_dec_nat clamp_ll_def)
qed

lemma decimal_no_backslash: "CHR 0x5C \<notin> set (decimal v)"
proof -
  have "c \<noteq> CHR 0x5C" if "c \<in> set (dec_nat n)" for c n
    using that dec_nat_all_digits [of n] isdigit_not_space [of c] by blast
  then show ?thesis
    by (auto simp: decimal_def)
qed

subsection \<open>The bytes of the integer encoder\<close>

lemma and_255_nat: "(a::nat) AND 255 = a mod 256"
proof -
  have "a AND mask 8 = a mod 2 ^ 8"
    by (simp only: take_bit_eq_mask [symmetric] take_bit_eq_mod)
  moreover have "(mask 8 :: nat) = 255"
    by (simp add: mask_eq_exp_minus_1)
  ultimately show ?thesis by simp
qed

lemma byte_at: "unat (ucast (drop_bit k (v::u64) AND 0xFF) :: byte) = unat v div 2 ^ k mod 256"
proof -
  have "unat (ucast (drop_bit k v AND 0xFF) :: byte) = take_bit 8 (unat (drop_bit k v AND 0xFF))"
    by (simp add: unsigned_ucast_eq)
  also have "unat (drop_bit k v AND 0xFF) = drop_bit k (unat v) AND 255"
    by (simp add: unsigned_and_eq unat_drop_bit_eq)
  finally show ?thesis
    by (simp add: and_255_nat take_bit_eq_mod drop_bit_eq_div)
qed

lemma byte_at0: "unat (ucast ((v::u64) AND 0xFF) :: byte) = unat v mod 256"
  using byte_at [of 0 v] by simp

lemma le_digit: "i < w \<Longrightarrow> (n mod 256 ^ w) div 256 ^ i mod 256 = n div 256 ^ i mod (256::nat)"
proof -
  assume "i < w"
  then obtain d where w: "w = i + Suc d" by (metis less_imp_Suc_add add_Suc_right)
  have "256 ^ w = (256::nat) ^ i * 256 ^ Suc d"
    by (simp only: w power_add)
  then have "(n mod 256 ^ w) div 256 ^ i = (n div 256 ^ i) mod 256 ^ Suc d"
    by (simp only: mod_mult2_eq) simp
  then have "(n mod 256 ^ w) div 256 ^ i mod 256 = (n div 256 ^ i) mod 256 ^ Suc d mod 256"
    by simp
  also have "\<dots> = n div 256 ^ i mod 256"
    by (rule mod_mod_cancel) simp
  finally show ?thesis .
qed

lemma le_bytes_mod: "le_bytes w (n mod 256 ^ w) = le_bytes w n"
  by (simp add: le_bytes_def le_digit)

lemma int_bytes_db: "int_bytes type_db v = [ucast (v AND 0xFF), 0, 0, 0, 0, 0, 0, 0]"
  by (simp add: int_bytes_def eval_nat_numeral)

lemma int_bytes_dw: "int_bytes type_dw v = [ucast (v AND 0xFF), ucast (drop_bit 8 v AND 0xFF), 0, 0, 0, 0, 0, 0]"
  by (simp add: int_bytes_def eval_nat_numeral)

lemma int_bytes_dd: "int_bytes type_dd v = [ucast (v AND 0xFF), ucast (drop_bit 8 v AND 0xFF),
    ucast (drop_bit 16 v AND 0xFF), ucast (drop_bit 24 v AND 0xFF), 0, 0, 0, 0]"
  by (simp add: int_bytes_def eval_nat_numeral)

lemma int_bytes_dq: "int_bytes type_dq v = [ucast (v AND 0xFF), ucast (drop_bit 8 v AND 0xFF),
    ucast (drop_bit 16 v AND 0xFF), ucast (drop_bit 24 v AND 0xFF), ucast (drop_bit 32 v AND 0xFF),
    ucast (drop_bit 40 v AND 0xFF), ucast (drop_bit 48 v AND 0xFF), ucast (drop_bit 56 v AND 0xFF)]"
  by (simp add: int_bytes_def eval_nat_numeral)

lemma int_bytes_str: "int_bytes type_str v = replicate 8 0"
  by (simp add: int_bytes_def)

lemma length_int_bytes: "length (int_bytes ty v) = 8"
  by (cases ty) (simp_all add: int_bytes_db int_bytes_dw int_bytes_dd int_bytes_dq int_bytes_str)

lemma upt_8: "[0..<8] = [0, 1, 2, 3, 4, 5, 6, 7]" "[0..<4] = [0, 1, 2, 3]" "[0..<2] = [0, 1]" "[0..<1] = [0]"
  by (simp_all add: upt_rec)

lemma int_bytes_take_le:
  "ty \<noteq> type_str \<Longrightarrow>
   map unat (take (data_type_val ty) (int_bytes ty v)) = le_bytes (data_type_val ty) (unat v)"
  by (cases ty)
     (simp_all add: int_bytes_db int_bytes_dw int_bytes_dd int_bytes_dq le_bytes_def upt_8
        byte_at0 drop_bit_eq_div unat_div_distrib)

lemma int_bytes_drop:
  "drop (data_type_val ty) (int_bytes ty v) = replicate (8 - data_type_val ty) 0"
  by (cases ty)
     (simp_all add: int_bytes_db int_bytes_dw int_bytes_dd int_bytes_dq int_bytes_str eval_nat_numeral)

lemma unat_integer_for: "unat (integer_for s) = nat (strtoll s mod 2 ^ 64)"
  by (simp add: integer_for_def unsigned_of_int take_bit_eq_mod)

lemma nat_mod_mod: "w \<le> 8 \<Longrightarrow> nat (k mod 2 ^ 64) mod 256 ^ w = nat (k mod 2 ^ (8 * w))"
proof -
  assume w: "w \<le> 8"
  have p: "(256::int) ^ w = 2 ^ (8 * w)" by (simp add: power_mult)
  have d: "(2::int) ^ (8 * w) dvd 2 ^ 64" using w by (intro le_imp_power_dvd) simp
  have "nat (k mod 2 ^ 64) mod 256 ^ w = nat ((k mod 2 ^ 64) mod 256 ^ w)"
    by (simp add: nat_mod_distrib nat_power_eq)
  also have "(k mod 2 ^ 64) mod 256 ^ w = k mod 2 ^ (8 * w)"
    unfolding p using d by (rule mod_mod_cancel)
  finally show ?thesis .
qed

lemma data_type_val_le: "data_type_val ty \<le> 8"
  by (cases ty) simp_all

lemma int_encoder_decimal:
  assumes "ty \<noteq> type_str"
  shows "map unat (take (data_type_val ty) (int_bytes ty (integer_for (copystr (decimal v)))))
         = le_bytes (data_type_val ty) (nat (clamp_ll v mod 2 ^ (8 * data_type_val ty)))"
proof -
  let ?w = "data_type_val ty"
  let ?V = "integer_for (copystr (decimal v))"
  have "copystr (decimal v) = decimal v"
    by (rule copystr_no_backslash) (rule decimal_no_backslash)
  then have u: "unat ?V = nat (clamp_ll v mod 2 ^ 64)"
    by (simp add: unat_integer_for strtoll_decimal)
  have "map unat (take ?w (int_bytes ty ?V)) = le_bytes ?w (unat ?V)"
    using assms by (rule int_bytes_take_le)
  also have "\<dots> = le_bytes ?w (unat ?V mod 256 ^ ?w)"
    by (simp only: le_bytes_mod)
  also have "unat ?V mod 256 ^ ?w = nat (clamp_ll v mod 2 ^ (8 * ?w))"
    unfolding u by (rule nat_mod_mod) (rule data_type_val_le)
  finally show ?thesis .
qed

subsection \<open>Writing at a position and seeking\<close>

lemma length_pwrite:
  "bs \<noteq> [] \<Longrightarrow> length (pwrite g c p bs) = max (length c) (p + length bs)"
  by (auto simp: pwrite_def)

lemma take_drop_pwrite: "take (length bs) (drop p (pwrite g c p bs)) = bs"
  by (auto simp: pwrite_def)

lemma nth_pwrite_outside:
  "i < length c \<Longrightarrow> i < p \<or> p + length bs \<le> i \<Longrightarrow> pwrite g c p bs ! i = c ! i"
  by (auto simp: pwrite_def nth_append min_def)


lemma fseek_ok:
  "unat off < 2 ^ 63 \<Longrightarrow> unat off \<le> seek_max h \<Longrightarrow> fseek h pos off = unat off"
proof -
  assume a: "unat off < 2 ^ 63" and b: "unat off \<le> seek_max h"
  have "int (unat off) < int (2 ^ 63)"
    using a by (simp only: of_nat_less_iff)
  then have u: "uint off < 2 ^ 63"
    by simp
  have "sint off = signed_take_bit 63 (uint off)"
    by (simp add: sint_uint)
  also have "\<dots> = uint off"
  proof (rule signed_take_bit_int_eq_self)
    have "- (2 ^ 63) \<le> (0::int)" by simp
    also have "(0::int) \<le> uint off" by simp
    finally show "- (2 ^ 63) \<le> uint off" .
    show "uint off < 2 ^ 63" by (rule u)
  qed
  finally have s: "sint off = uint off" .
  have "0 \<le> sint off" "nat (sint off) = unat off"
    unfolding s by simp_all
  then show ?thesis
    using b by (simp add: fseek_def)
qed

subsection \<open>What a write leaves on the file\<close>

lemma pwrite_Nil: "pwrite g c p [] = c"
  by (simp add: pwrite_def)

lemma fwrite_count:
  "fst (fwrite h st buf n) = (if n \<le> bufsiz h then n else min n (accepts h))"
  by (simp add: fwrite_def Let_def)

lemma fwrite_flushed:
  "disk (fflush h (snd (fwrite h \<lparr>fpos = pos, pending = [], disk = content\<rparr> buf n)))
   = pwrite (hole h) content pos (take (min n (accepts h)) buf)"
proof (cases "n \<le> bufsiz h")
  case True
  then show ?thesis
    by (simp add: fwrite_def fflush_def min.commute)
next
  case False
  then show ?thesis
    by (simp add: fwrite_def fflush_def Let_def pwrite_Nil)
qed

lemma main_int:
  assumes "scan_opts h opts init_vars = Some a" "file_path a = Some path" "fs path = Some content"
    "type a \<noteq> type_str" "data_in a = Some d"
  shows "main h fs opts =
    (let n = data_type_val (type a);
         r = (if n \<le> bufsiz h then n else min n (accepts h));
         content' = pwrite (hole h) content (fseek h 0 (offset a))
                      (take (min n (accepts h)) (int_bytes (type a) (integer_for d)))
     in \<lparr>status = (if r \<noteq> n then Exit 3 else Exit 0), stdout = printed a,
         stderr = complaints a @ (if r \<noteq> n then [short_write_msg r] else []),
         files = fs(path \<mapsto> content'), fp = (if r \<noteq> n then Open else Closed),
         written = Some (n, r)\<rparr>)"
proof -
  let ?st = "\<lparr>fpos = fseek h 0 (offset a), pending = [], disk = content\<rparr>"
  let ?bytes = "int_bytes (type a) (integer_for d)"
  let ?n = "data_type_val (type a)"
  obtain r st' where w: "fwrite h ?st ?bytes ?n = (r, st')"
    by (cases "fwrite h ?st ?bytes ?n")
  have r: "r = (if ?n \<le> bufsiz h then ?n else min ?n (accepts h))"
    using fwrite_count [of h ?st ?bytes ?n] w by simp
  have d: "disk (fflush h st')
           = pwrite (hole h) content (fseek h 0 (offset a)) (take (min ?n (accepts h)) ?bytes)"
    using fwrite_flushed [of h "fseek h 0 (offset a)" content ?bytes ?n] w by simp
  show ?thesis
    using assms w by (simp add: main_def Let_def r [symmetric] d)
qed

lemma main_str:
  assumes "scan_opts h opts init_vars = Some a" "file_path a = Some path" "fs path = Some content"
    "type a = type_str" "data_in a = Some d"
    "str_buffer h d (length_arg a) (pad_value a) = Some buffer"
  shows "main h fs opts =
    (let n = unat (length_arg a);
         r = (if n \<le> bufsiz h then n else min n (accepts h));
         content' = pwrite (hole h) content (fseek h 0 (offset a))
                      (take (min n (accepts h)) buffer)
     in \<lparr>status = (if r \<noteq> n then Exit 3 else Exit 0), stdout = printed a,
         stderr = complaints a @ (if r \<noteq> n then [short_write_msg r] else []),
         files = fs(path \<mapsto> content'), fp = (if r \<noteq> n then Open else Closed),
         written = Some (n, r)\<rparr>)"
proof -
  let ?st = "\<lparr>fpos = fseek h 0 (offset a), pending = [], disk = content\<rparr>"
  let ?n = "unat (length_arg a)"
  obtain r st' where w: "fwrite h ?st buffer ?n = (r, st')"
    by (cases "fwrite h ?st buffer ?n")
  have r: "r = (if ?n \<le> bufsiz h then ?n else min ?n (accepts h))"
    using fwrite_count [of h ?st buffer ?n] w by simp
  have d: "disk (fflush h st')
           = pwrite (hole h) content (fseek h 0 (offset a)) (take (min ?n (accepts h)) buffer)"
    using fwrite_flushed [of h "fseek h 0 (offset a)" content buffer ?n] w by simp
  show ?thesis
    using assms w by (simp add: main_def Let_def r [symmetric] d)
qed

subsection \<open>Values and examples\<close>

lemma clamp_ll_id: "- (2 ^ 63) \<le> v \<Longrightarrow> v < 2 ^ 63 \<Longrightarrow> clamp_ll v = v"
  by (simp add: clamp_ll_def)

lemma plain_host_simps:
  "wordexp (plain_host k) p = (if p = [] then Some [] else Some [p])"
  "heap (plain_host k) = 2 ^ 32"
  "bufsiz (plain_host k) = 4096" "accepts (plain_host k) = k"
  "seek_max (plain_host k) = 2 ^ 63 - 1" "hole (plain_host k) = 0"
  by (simp_all add: plain_host_def)

lemma integer_for_examples:
  "unat (integer_for ''-1'') = 18446744073709551615" "unat (integer_for ''257'') = 257"
  "unat (integer_for ''9223372036854775808'') = 9223372036854775807"
  by (simp_all add: unat_integer_for strtoll_def isspace_def isdigit_def Let_def)

lemma ex_dq: "map unat (take (data_type_val (data_type_for ''dq''))
         (int_bytes (data_type_for ''dq'') (integer_for (copystr ''-1''))))
       = [0xFF, 0xFF, 0xFF, 0xFF, 0xFF, 0xFF, 0xFF, 0xFF]"
proof -
  have "map unat (take (data_type_val type_dq) (int_bytes type_dq (integer_for ''-1'')))
        = le_bytes (data_type_val type_dq) (unat (integer_for ''-1''))"
    by (rule int_bytes_take_le) simp
  then show ?thesis
    by (simp add: data_type_for_def integer_for_examples le_bytes_def upt_8)
qed

lemma ex_db: "map unat (take (data_type_val (data_type_for ''db''))
         (int_bytes (data_type_for ''db'') (integer_for (copystr ''257''))))
       = [0x01]"
proof -
  have "map unat (take (data_type_val type_db) (int_bytes type_db (integer_for ''257'')))
        = le_bytes (data_type_val type_db) (unat (integer_for ''257''))"
    by (rule int_bytes_take_le) simp
  then show ?thesis
    by (simp add: data_type_for_def integer_for_examples le_bytes_def upt_8)
qed

lemma decimal_m1: "decimal (- 1) = ''-1''"
  by (simp add: decimal_def dec_nat.simps char_of_def bit_0)

lemma pow256: "(256::nat) ^ w = 2 ^ (8 * w)"
  by (simp add: power_mult)

lemma integer_for_words:
  "integer_for ''-1'' = - 1" "integer_for ''5'' = 5" "integer_for ''0'' = 0" "integer_for ''100000'' = 100000"
  by (simp_all add: integer_for_def strtoll_def isspace_def isdigit_def Let_def)

lemma fseek_m1: "fseek h pos (- 1) = pos"
  by (simp add: fseek_def)

lemma unat_strlen_u32:
  assumes "length s < 2 ^ 32"
  shows "unat (ucast (word_of_nat (length s) :: u32) :: u64) = length s"
proof -
  have "unat (word_of_nat (length s) :: u32) = length s"
    using assms by (simp add: unsigned_of_nat take_bit_eq_mod)
  then show ?thesis
    using assms by (simp add: unsigned_ucast_eq take_bit_eq_mod)
qed

lemma integer_for_more:
  "integer_for ''544'' = 544" "integer_for ''2'' = 2" "integer_for ''32'' = 32"
  "integer_for ''3'' = 3" "integer_for ''1'' = 1"
  by (simp_all add: integer_for_def strtoll_def isspace_def isdigit_def Let_def)

lemma data_type_val_cases: "ty \<noteq> type_str \<Longrightarrow> data_type_val ty \<in> {1, 2, 4, 8}"
  by (cases ty) simp_all

lemma int_bytes_take_le_mod:
  "ty \<noteq> type_str \<Longrightarrow>
   map unat (take (data_type_val ty) (int_bytes ty V))
   = le_bytes (data_type_val ty) (unat V mod 2 ^ (8 * data_type_val ty))"
  using int_bytes_take_le [of ty V] le_bytes_mod [of "data_type_val ty" "unat V"]
  by (simp add: pow256)

lemma unat_integer_for_decimal:
  "unat (integer_for (copystr (decimal v))) = nat (clamp_ll v mod 2 ^ 64)"
proof -
  have "copystr (decimal v) = decimal v"
    by (rule copystr_no_backslash) (rule decimal_no_backslash)
  then show ?thesis
    by (simp add: unat_integer_for strtoll_decimal)
qed

lemma integer_for_large: "integer_for ''1099511627776'' = 1099511627776"
  by (simp add: integer_for_def strtoll_def isspace_def isdigit_def Let_def)

lemmas run_simps = main_def opt_case_def resolve_path_def plain_host_simps init_vars_def
  data_type_for_def fwrite_def fflush_def pwrite_def Let_def crashed_def

lemma scan_ex1:
  "scan_opts (plain_host 4096) [(CHR ''f'', ''disk.img''), (CHR ''t'', ''dq''), (CHR ''d'', ''-1'')] init_vars
   = Some \<lparr>file_path = Some ''disk.img'', offset = 0, type = type_dq, length_arg = 1, pad_value = 0,
            data_in = Some ''-1'', printed = [], complaints = []\<rparr>"
  by (simp add: opt_case_def resolve_path_def plain_host_simps init_vars_def data_type_for_def)

lemma scan_ex4:
  "scan_opts (plain_host 4096)
     [(CHR ''f'', ''x''), (CHR ''t'', ''str''), (CHR ''d'', ''Hi''), (CHR ''l'', ''5''), (CHR ''p'', ''32'')]
     init_vars
   = Some \<lparr>file_path = Some ''x'', offset = 0, type = type_str, length_arg = 5, pad_value = 32,
            data_in = Some ''Hi'', printed = [], complaints = []\<rparr>"
  by (simp add: opt_case_def resolve_path_def plain_host_simps init_vars_def data_type_for_def
      integer_for_more integer_for_words)

lemma scan_ex6:
  "scan_opts (plain_host 0)
     [(CHR ''f'', ''x''), (CHR ''t'', ''str''), (CHR ''l'', ''0''), (CHR ''d'', ''abc'')] init_vars
   = Some \<lparr>file_path = Some ''x'', offset = 0, type = type_str, length_arg = 0, pad_value = 0,
            data_in = Some ''abc'', printed = [], complaints = []\<rparr>"
  by (simp add: opt_case_def resolve_path_def plain_host_simps init_vars_def data_type_for_def
      integer_for_words)

subsection \<open>The string buffer\<close>

lemma str_buffer_eq:
  assumes "length s < 2 ^ 32" "L + 1 \<noteq> 0" "unat (L + 1) \<le> heap h"
  shows "str_buffer h s L p
         = Some (map byte_of (take (min (length s) (unat L)) s)
                 @ drop (min (length s) (unat L)) (replicate (unat L) p))"
proof -
  let ?dl = "ucast (word_of_nat (length s) :: u32) :: u64"
  have u: "unat ?dl = length s"
    using assms(1) by (rule unat_strlen_u32)
  have "unat (if ?dl > L then L else ?dl) = min (length s) (unat L)"
    using u by (auto simp: word_less_nat_alt)
  then show ?thesis
    using assms(2,3) by (simp add: str_buffer_def Let_def)
qed

lemma str_buffer_props:
  assumes "length s < 2 ^ 32" "L + 1 \<noteq> 0" "unat (L + 1) \<le> heap h"
  shows "\<exists>buf. str_buffer h s L p = Some buf \<and> length buf = unat L
     \<and> take (min (length s) (unat L)) buf = map byte_of (take (min (length s) (unat L)) s)
     \<and> drop (length s) buf = replicate (unat L - length s) p"
proof -
  let ?k = "min (length s) (unat L)"
  let ?buf = "map byte_of (take ?k s) @ drop ?k (replicate (unat L) p)"
  have 0: "str_buffer h s L p = Some ?buf"
    using assms by (rule str_buffer_eq)
  have 1: "length ?buf = unat L" by auto
  have 2: "take ?k ?buf = map byte_of (take ?k s)" by simp
  have 3: "drop (length s) ?buf = replicate (unat L - length s) p"
    by (cases "length s \<le> unat L") (simp_all add: min_def)
  show ?thesis
    using 0 1 2 3 by blast
qed

lemma str_buffer_0: "str_buffer h d 0 p = Some []"
proof -
  have "unat (if x > 0 then 0 else x) = 0" for x :: u64
    by (cases "x = 0") (simp_all add: word_neq_0_conv)
  then show ?thesis
    by (simp add: str_buffer_def Let_def)
qed

subsection \<open>The files after a run\<close>


lemma main_fp:
  "(status (main h fs opts) = Exit 3 \<longrightarrow> fp (main h fs opts) = Open)
   \<and> (status (main h fs opts) = Exit 0 \<longrightarrow> fp (main h fs opts) = Closed)"
  by (auto simp: main_def crashed_def Let_def split: option.splits if_splits prod.splits)

subsection \<open>The file after an integer write\<close>

lemma main_int_file:
  assumes "scan_opts h opts init_vars = Some a" "file_path a = Some path" "fs path = Some content"
    "type a \<noteq> type_str" "data_in a = Some d" "data_type_val (type a) \<le> accepts h"
  shows "status (main h fs opts) = Exit 0
     \<and> (\<exists>content'. files (main h fs opts) path = Some content'
          \<and> content' = pwrite (hole h) content (fseek h 0 (offset a))
                          (take (data_type_val (type a)) (int_bytes (type a) (integer_for d)))
          \<and> take (data_type_val (type a)) (drop (fseek h 0 (offset a)) content')
              = take (data_type_val (type a)) (int_bytes (type a) (integer_for d))
          \<and> (\<forall>i < length content.
                i < fseek h 0 (offset a) \<or> fseek h 0 (offset a) + data_type_val (type a) \<le> i
                \<longrightarrow> content' ! i = content ! i)
          \<and> length content' = max (length content) (fseek h 0 (offset a) + data_type_val (type a)))
     \<and> (\<forall>q. q \<noteq> path \<longrightarrow> files (main h fs opts) q = fs q)"
proof -
  let ?n = "data_type_val (type a)"
  let ?bytes = "int_bytes (type a) (integer_for d)"
  let ?pos = "fseek h 0 (offset a)"
  let ?c = "pwrite (hole h) content ?pos (take ?n ?bytes)"
  note m = main_int [of h opts a path fs content d, OF assms(1-5)]
  have full: "min ?n (accepts h) = ?n"
    using assms(6) by simp
  have st: "status (main h fs opts) = Exit 0"
    unfolding m by (simp add: Let_def full)
  have files: "files (main h fs opts) = fs(path \<mapsto> ?c)"
    unfolding m by (simp add: Let_def full)
  have len: "length (take ?n ?bytes) = ?n"
    by (simp add: length_int_bytes data_type_val_le)
  have "0 < ?n"
    using assms(4) by (cases "type a") simp_all
  then have ne: "take ?n ?bytes \<noteq> []"
    using len by auto
  have 1: "take ?n (drop ?pos ?c) = take ?n ?bytes"
    using take_drop_pwrite [of "take ?n ?bytes" ?pos "hole h" content] len by simp
  have 2: "\<forall>i < length content. i < ?pos \<or> ?pos + ?n \<le> i \<longrightarrow> ?c ! i = content ! i"
    using nth_pwrite_outside [of _ content ?pos "take ?n ?bytes" "hole h"] len by simp
  have 3: "length ?c = max (length content) (?pos + ?n)"
    using length_pwrite [OF ne, of "hole h" content ?pos] len by simp
  show ?thesis
    using st 1 2 3 by (simp add: files)
qed

lemma main_str_file:
  assumes "scan_opts h opts init_vars = Some a" "file_path a = Some path" "fs path = Some content"
    "type a = type_str" "data_in a = Some d"
    "str_buffer h d (length_arg a) (pad_value a) = Some buffer" "length buffer = unat (length_arg a)"
    "unat (length_arg a) \<le> accepts h"
  shows "status (main h fs opts) = Exit 0
     \<and> files (main h fs opts) path
         = Some (pwrite (hole h) content (fseek h 0 (offset a)) buffer)
     \<and> (\<forall>q. q \<noteq> path \<longrightarrow> files (main h fs opts) q = fs q)"
  using main_str [of h opts a path fs content d buffer] assms by (simp add: Let_def)

section \<open>The claims\<close>

text \<open>
  C1 (amended). Let the kind be one of the four integer kinds, of width \<open>w\<close> (1, 2, 4 or
  8). For every 64-bit value \<open>V\<close> the buffer of the integer encoder has 8 bytes, its bytes
  0..w-1 are the little-endian encoding of \<open>V\<close> modulo \<open>2^(8w)\<close> and its bytes w..7 are zero.
  For an integer \<open>v\<close> typed in decimal after \<^verbatim>\<open>-d\<close> the value encoded is \<open>v'\<close> modulo
  \<open>2^64\<close>, where \<open>v'\<close> is \<open>v\<close> brought into the range of a signed 64-bit integer (\<open>v\<close> itself
  when \<open>-2^63 \<le> v < 2^63\<close>), so that bytes 0..w-1 are the little-endian encoding of \<open>v'\<close>
  modulo \<open>2^(8w)\<close>. In a run that reaches the write (a file was given and opened) on a
  file that takes \<open>w\<close> bytes, exactly \<open>w\<close> bytes are written to the file: afterwards the file
  holds bytes 0..w-1 of the buffer at the stream's position, every other byte of the old
  file is unchanged, the file is as long as before or ends after the \<open>w\<close> bytes, and the
  exit code is 0. With \<^verbatim>\<open>-t dq -d -1\<close> the eight bytes are FF, and with
  \<^verbatim>\<open>-t db -d 257\<close> the one byte is 01.
\<close>

theorem int_encoder_le_bytes:
  "(ty \<noteq> type_str \<longrightarrow>
      data_type_val ty \<in> {1, 2, 4, 8}
    \<and> length (int_bytes ty V) = 8
    \<and> map unat (take (data_type_val ty) (int_bytes ty V))
        = le_bytes (data_type_val ty) (unat V mod 2 ^ (8 * data_type_val ty))
    \<and> drop (data_type_val ty) (int_bytes ty V) = replicate (8 - data_type_val ty) 0
    \<and> map unat (take (data_type_val ty) (int_bytes ty (integer_for (copystr (decimal v)))))
        = le_bytes (data_type_val ty) (nat (clamp_ll v mod 2 ^ (8 * data_type_val ty)))
    \<and> (scan_opts h opts init_vars = Some a \<and> type a = ty
        \<and> data_in a = Some (copystr (decimal v))
        \<and> file_path a = Some path \<and> fs path = Some content
        \<and> data_type_val ty \<le> accepts h
       \<longrightarrow> status (main h fs opts) = Exit 0
         \<and> (\<exists>content'. files (main h fs opts) path = Some content'
              \<and> content' = pwrite (hole h) content (fseek h 0 (offset a))
                    (take (data_type_val ty) (int_bytes ty (integer_for (copystr (decimal v)))))
              \<and> take (data_type_val ty) (drop (fseek h 0 (offset a)) content')
                  = take (data_type_val ty) (int_bytes ty (integer_for (copystr (decimal v))))
              \<and> (\<forall>i < length content.
                    i < fseek h 0 (offset a) \<or> fseek h 0 (offset a) + data_type_val ty \<le> i
                    \<longrightarrow> content' ! i = content ! i)
              \<and> length content' = max (length content) (fseek h 0 (offset a) + data_type_val ty))
         \<and> (\<forall>q. q \<noteq> path \<longrightarrow> files (main h fs opts) q = fs q)))
   \<and> unat (integer_for (copystr (decimal v))) = nat (clamp_ll v mod 2 ^ 64)
   \<and> (- (2 ^ 63) \<le> v \<and> v < 2 ^ 63 \<longrightarrow> clamp_ll v = v)
   \<and> map unat (take (data_type_val (data_type_for ''dq''))
        (int_bytes (data_type_for ''dq'') (integer_for (copystr ''-1''))))
      = [0xFF, 0xFF, 0xFF, 0xFF, 0xFF, 0xFF, 0xFF, 0xFF]
   \<and> map unat (take (data_type_val (data_type_for ''db''))
        (int_bytes (data_type_for ''db'') (integer_for (copystr ''257''))))
      = [0x01]"
proof -
  have run: "status (main h fs opts) = Exit 0
         \<and> (\<exists>content'. files (main h fs opts) path = Some content'
              \<and> content' = pwrite (hole h) content (fseek h 0 (offset a))
                    (take (data_type_val ty) (int_bytes ty (integer_for (copystr (decimal v)))))
              \<and> take (data_type_val ty) (drop (fseek h 0 (offset a)) content')
                  = take (data_type_val ty) (int_bytes ty (integer_for (copystr (decimal v))))
              \<and> (\<forall>i < length content.
                    i < fseek h 0 (offset a) \<or> fseek h 0 (offset a) + data_type_val ty \<le> i
                    \<longrightarrow> content' ! i = content ! i)
              \<and> length content' = max (length content) (fseek h 0 (offset a) + data_type_val ty))
         \<and> (\<forall>q. q \<noteq> path \<longrightarrow> files (main h fs opts) q = fs q)"
    if "ty \<noteq> type_str" "scan_opts h opts init_vars = Some a" "type a = ty"
      "data_in a = Some (copystr (decimal v))" "file_path a = Some path" "fs path = Some content"
      "data_type_val ty \<le> accepts h"
    using main_int_file [of h opts a path fs content "copystr (decimal v)"] that by simp
  show ?thesis
    using int_encoder_decimal [of ty v] length_int_bytes [of ty V] int_bytes_drop [of ty V]
      int_bytes_take_le_mod [of ty V] unat_integer_for_decimal [of v] run
      clamp_ll_id [of v] ex_dq ex_db data_type_val_cases [of ty]
    by (simp only: simp_thms) blast
qed

text \<open>
  The theorem at \<^verbatim>\<open>-f disk.img -t dq -d -1\<close> on sixteen zero bytes.
\<close>

theorem int_encoder_le_bytes_witness:
  "map unat (take 8 (int_bytes type_dq (integer_for ''-1''))) = le_bytes 8 (nat ((- 1) mod 2 ^ 64))
   \<and> status (main (plain_host 4096) [''disk.img'' \<mapsto> replicate 16 0]
        [(CHR ''f'', ''disk.img''), (CHR ''t'', ''dq''), (CHR ''d'', ''-1'')]) = Exit 0
   \<and> (\<exists>content'. files (main (plain_host 4096) [''disk.img'' \<mapsto> replicate 16 0]
          [(CHR ''f'', ''disk.img''), (CHR ''t'', ''dq''), (CHR ''d'', ''-1'')]) ''disk.img''
          = Some content'
        \<and> take 8 content' = take 8 (int_bytes type_dq (integer_for ''-1''))
        \<and> content' ! 8 = 0 \<and> length content' = 16)"
proof -
  let ?a = "\<lparr>file_path = Some ''disk.img'', offset = 0, type = type_dq, length_arg = 1,
             pad_value = 0, data_in = Some ''-1'', printed = [], complaints = []\<rparr>"
  let ?opts = "[(CHR ''f'', ''disk.img''), (CHR ''t'', ''dq''), (CHR ''d'', ''-1'')]"
  let ?fs = "[''disk.img'' \<mapsto> replicate 16 (0 :: byte)]"
  let ?B = "int_bytes type_dq (integer_for (copystr (decimal (- 1))))"
  have 1: "scan_opts (plain_host 4096) ?opts init_vars = Some ?a"
    by (rule scan_ex1)
  have 2: "type ?a = type_dq" "data_in ?a = Some (copystr (decimal (- 1)))"
    "file_path ?a = Some ''disk.img''" "?fs ''disk.img'' = Some (replicate 16 0)"
    "type_dq \<noteq> type_str" "data_type_val type_dq \<le> accepts (plain_host 4096)"
    by (simp_all add: decimal_m1 plain_host_simps)
  have 3: "- (2 ^ 63) \<le> (- 1 :: int) \<and> (- 1 :: int) < 2 ^ 63"
    by simp
  have p: "fseek (plain_host 4096) 0 (offset ?a) = 0"
    by (simp add: fseek_def)
  from int_encoder_le_bytes [of type_dq "integer_for ''-1''" "- 1" "plain_host 4096" ?opts ?a
      "''disk.img''" ?fs "replicate 16 0"] 1 2 3
  have e: "map unat (take (data_type_val type_dq) ?B)
        = le_bytes (data_type_val type_dq) (nat (clamp_ll (- 1) mod 2 ^ (8 * data_type_val type_dq)))"
    and s: "status (main (plain_host 4096) ?fs ?opts) = Exit 0"
    and f: "\<exists>content'. files (main (plain_host 4096) ?fs ?opts) ''disk.img'' = Some content'
        \<and> take (data_type_val type_dq) (drop (fseek (plain_host 4096) 0 (offset ?a)) content')
            = take (data_type_val type_dq) ?B
        \<and> (\<forall>i < length (replicate 16 (0 :: byte)).
              i < fseek (plain_host 4096) 0 (offset ?a)
              \<or> fseek (plain_host 4096) 0 (offset ?a) + data_type_val type_dq \<le> i
              \<longrightarrow> content' ! i = replicate 16 0 ! i)
        \<and> length content'
            = max (length (replicate 16 (0 :: byte)))
                (fseek (plain_host 4096) 0 (offset ?a) + data_type_val type_dq)"
    by blast+
  from f obtain content' where
    c: "files (main (plain_host 4096) ?fs ?opts) ''disk.img'' = Some content'"
    and t: "take 8 content' = take 8 (int_bytes type_dq (integer_for ''-1''))"
    and o: "\<forall>i < 16. 8 \<le> i \<longrightarrow> content' ! i = replicate 16 0 ! i"
    and l: "length content' = 16"
    unfolding p by (auto simp: decimal_m1)
  from o have "content' ! 8 = 0" by simp
  with e s c t l show ?thesis
    by (simp add: decimal_m1 clamp_ll_def)
qed

text \<open>
  The claim as it was stated fails in two ways. A value outside the signed 64-bit range
  is not encoded modulo \<open>2^(8w)\<close>: for \<^verbatim>\<open>-t dq -d 9223372036854775808\<close> (that is \<open>2^63\<close>)
  the bytes are FF FF FF FF FF FF FF 7F, while the little-endian encoding of \<open>2^63\<close> modulo
  \<open>2^64\<close> is 00 00 00 00 00 00 00 80. And \<open>w\<close> bytes are not written to a file that takes
  none: \<^verbatim>\<open>-f x -d 5\<close> on a full device leaves the two bytes of \<^verbatim>\<open>x\<close> as they were.
\<close>

theorem int_encoder_saturates:
  "decimal 9223372036854775808 = ''9223372036854775808''
   \<and> map unat (take (data_type_val type_dq)
        (int_bytes type_dq (integer_for (copystr ''9223372036854775808''))))
     = [255, 255, 255, 255, 255, 255, 255, 127]
   \<and> le_bytes (data_type_val type_dq) (9223372036854775808 mod 2 ^ (8 * data_type_val type_dq))
     = [0, 0, 0, 0, 0, 0, 0, 128]
   \<and> files (main (plain_host 0) [''x'' \<mapsto> [9, 9]] [(CHR ''f'', ''x''), (CHR ''d'', ''5'')]) ''x''
     = Some [9, 9]"
proof -
  have "map unat (take (data_type_val type_dq) (int_bytes type_dq (integer_for ''9223372036854775808'')))
        = le_bytes (data_type_val type_dq) (unat (integer_for ''9223372036854775808''))"
    by (rule int_bytes_take_le) simp
  moreover have "files (main (plain_host 0) [''x'' \<mapsto> [9, 9]]
        [(CHR ''f'', ''x''), (CHR ''d'', ''5'')]) ''x'' = Some [9, 9]"
    by (simp add: run_simps integer_for_words int_bytes_db fseek_def)
  ultimately show ?thesis
    by (simp add: decimal_def dec_nat.simps char_of_def bit_0 integer_for_examples le_bytes_def upt_8)
qed

text \<open>
  C2. The claim says that after every integer-mode run that ends with exit code 0 the
  \<open>w\<close> bytes at the offset are the encoding and every other byte is as before. \<^verbatim>\<open>main\<close>
  calls \<^verbatim>\<open>fseek\<close> under the comment "Seek to the required location" and does not look at
  its result, while it tests those of \<^verbatim>\<open>fopen\<close> and \<^verbatim>\<open>fwrite\<close>. With
  \<^verbatim>\<open>-f x -a -1 -d 5\<close> the offset is \<open>2^64 - 1\<close>, which is \<open>-1\<close> as a \<^verbatim>\<open>long\<close>; \<^verbatim>\<open>fseek\<close>
  fails, the position stays 0, the run ends with exit code 0, and byte 0 of the file,
  which lies outside \<open>[o, o + 1)\<close>, has changed from 0 to 5.
\<close>

theorem int_patch_seek_ignored: "unat (integer_for ''-1'') = 18446744073709551615
   \<and> [''x'' \<mapsto> [0, 0 :: byte]] ''x'' = Some [0, 0]
   \<and> status (main (plain_host 4096) [''x'' \<mapsto> [0, 0]]
        [(CHR ''f'', ''x''), (CHR ''a'', ''-1''), (CHR ''d'', ''5'')]) = Exit 0
   \<and> files (main (plain_host 4096) [''x'' \<mapsto> [0, 0]]
        [(CHR ''f'', ''x''), (CHR ''a'', ''-1''), (CHR ''d'', ''5'')]) ''x'' = Some [5, 0]"
proof -
  have "status (main (plain_host 4096) [''x'' \<mapsto> [0, 0]]
          [(CHR ''f'', ''x''), (CHR ''a'', ''-1''), (CHR ''d'', ''5'')]) = Exit 0
      \<and> files (main (plain_host 4096) [''x'' \<mapsto> [0, 0]]
          [(CHR ''f'', ''x''), (CHR ''a'', ''-1''), (CHR ''d'', ''5'')]) ''x'' = Some [5, 0]"
    by (simp add: run_simps integer_for_words int_bytes_db fseek_m1)
  then show ?thesis
    by (simp add: integer_for_examples)
qed

text \<open>
  C3 (amended). Let \<open>s\<close> be a decoded string, shorter than \<open>2^32\<close> bytes as every argument
  is, \<open>L\<close> a target length below \<open>2^64 - 1\<close> for which \<^verbatim>\<open>malloc(L + 1)\<close> gives a block, and
  \<open>p\<close> a pad byte. The string encoder produces a buffer of exactly \<open>L\<close> bytes: its first
  \<open>min (len s) L\<close> bytes are those of \<open>s\<close>, and every byte after the first \<open>len s\<close> is \<open>p\<close>, so
  that no NUL terminator is appended. In a run that reaches the write (a file was given
  and opened) on a file that takes \<open>L\<close> bytes, exactly these \<open>L\<close> bytes are written to the
  file at the stream's position, no other file is touched, and the exit code is 0.
\<close>

theorem str_encoder_pad:
  "length s < 2 ^ 32 \<and> L + 1 \<noteq> 0 \<and> unat (L + 1) \<le> heap h \<longrightarrow>
   (\<exists>buf. str_buffer h s L p = Some buf \<and> length buf = unat L
     \<and> take (min (length s) (unat L)) buf = map byte_of (take (min (length s) (unat L)) s)
     \<and> drop (length s) buf = replicate (unat L - length s) p
     \<and> (scan_opts h opts init_vars = Some a \<and> type a = type_str \<and> data_in a = Some s
         \<and> length_arg a = L \<and> pad_value a = p \<and> file_path a = Some path
         \<and> fs path = Some content \<and> unat L \<le> accepts h
        \<longrightarrow> status (main h fs opts) = Exit 0
          \<and> files (main h fs opts) path
             = Some (pwrite (hole h) content (fseek h 0 (offset a)) buf)
          \<and> (\<forall>q. q \<noteq> path \<longrightarrow> files (main h fs opts) q = fs q)))"
proof (intro impI, elim conjE)
  assume a: "length s < 2 ^ 32" "L + 1 \<noteq> 0" "unat (L + 1) \<le> heap h"
  from str_buffer_props [OF a, of p] obtain buf where
    b: "str_buffer h s L p = Some buf" "length buf = unat L"
       "take (min (length s) (unat L)) buf = map byte_of (take (min (length s) (unat L)) s)"
       "drop (length s) buf = replicate (unat L - length s) p"
    by blast
  have "status (main h fs opts) = Exit 0
          \<and> files (main h fs opts) path
             = Some (pwrite (hole h) content (fseek h 0 (offset a)) buf)
          \<and> (\<forall>q. q \<noteq> path \<longrightarrow> files (main h fs opts) q = fs q)"
    if "scan_opts h opts init_vars = Some a" "type a = type_str" "data_in a = Some s"
       "length_arg a = L" "pad_value a = p" "file_path a = Some path" "fs path = Some content"
       "unat L \<le> accepts h"
    using main_str_file [of h opts a path fs content s buf] that b(1,2) by simp
  with b show "\<exists>buf. str_buffer h s L p = Some buf \<and> length buf = unat L
     \<and> take (min (length s) (unat L)) buf = map byte_of (take (min (length s) (unat L)) s)
     \<and> drop (length s) buf = replicate (unat L - length s) p
     \<and> (scan_opts h opts init_vars = Some a \<and> type a = type_str \<and> data_in a = Some s
         \<and> length_arg a = L \<and> pad_value a = p \<and> file_path a = Some path
         \<and> fs path = Some content \<and> unat L \<le> accepts h
        \<longrightarrow> status (main h fs opts) = Exit 0
          \<and> files (main h fs opts) path
             = Some (pwrite (hole h) content (fseek h 0 (offset a)) buf)
          \<and> (\<forall>q. q \<noteq> path \<longrightarrow> files (main h fs opts) q = fs q))"
    by blast
qed

text \<open>
  The theorem at \<^verbatim>\<open>-f x -t str -d "Hi" -l 5 -p 32\<close> on eight bytes 09: the bytes written
  are H, i and three times 0x20, and the last three bytes of the file stay.
\<close>

theorem str_encoder_pad_witness:
  "\<exists>buf. str_buffer (plain_host 4096) ''Hi'' 5 32 = Some buf \<and> length buf = 5
     \<and> take 2 buf = [0x48, 0x69] \<and> drop 2 buf = replicate 3 0x20
     \<and> status (main (plain_host 4096) [''x'' \<mapsto> replicate 8 9]
          [(CHR ''f'', ''x''), (CHR ''t'', ''str''), (CHR ''d'', ''Hi''), (CHR ''l'', ''5''),
           (CHR ''p'', ''32'')]) = Exit 0
     \<and> files (main (plain_host 4096) [''x'' \<mapsto> replicate 8 9]
          [(CHR ''f'', ''x''), (CHR ''t'', ''str''), (CHR ''d'', ''Hi''), (CHR ''l'', ''5''),
           (CHR ''p'', ''32'')]) ''x'' = Some (buf @ replicate 3 9)"
proof -
  let ?a = "\<lparr>file_path = Some ''x'', offset = 0, type = type_str, length_arg = 5, pad_value = 32,
            data_in = Some ''Hi'', printed = [], complaints = []\<rparr>"
  let ?opts = "[(CHR ''f'', ''x''), (CHR ''t'', ''str''), (CHR ''d'', ''Hi''), (CHR ''l'', ''5''),
           (CHR ''p'', ''32'')]"
  let ?fs = "[''x'' \<mapsto> replicate 8 (9 :: byte)]"
  have h: "length ''Hi'' < 2 ^ 32 \<and> (5 :: u64) + 1 \<noteq> 0
      \<and> unat ((5 :: u64) + 1) \<le> heap (plain_host 4096)"
    by (simp add: plain_host_simps)
  have s: "scan_opts (plain_host 4096) ?opts init_vars = Some ?a \<and> type ?a = type_str
       \<and> data_in ?a = Some ''Hi'' \<and> length_arg ?a = 5 \<and> pad_value ?a = 32
       \<and> file_path ?a = Some ''x'' \<and> ?fs ''x'' = Some (replicate 8 9)
       \<and> unat (5 :: u64) \<le> accepts (plain_host 4096)"
    using scan_ex4 by (simp add: plain_host_simps)
  from str_encoder_pad [of "''Hi''" 5 "plain_host 4096" 32 ?opts ?a "''x''" ?fs "replicate 8 9"] h s
  obtain buf where b: "str_buffer (plain_host 4096) ''Hi'' 5 32 = Some buf"
      "length buf = unat (5 :: u64)"
    and t: "take (min (length ''Hi'') (unat (5 :: u64))) buf
            = map byte_of (take (min (length ''Hi'') (unat (5 :: u64))) ''Hi'')"
    and d: "drop (length ''Hi'') buf = replicate (unat (5 :: u64) - length ''Hi'') 32"
    and e: "status (main (plain_host 4096) ?fs ?opts) = Exit 0"
    and w: "files (main (plain_host 4096) ?fs ?opts) ''x''
            = Some (pwrite (hole (plain_host 4096)) (replicate 8 9)
                      (fseek (plain_host 4096) 0 (offset ?a)) buf)"
    by blast
  have n: "min (length ''Hi'') (unat (5 :: u64)) = 2" "length ''Hi'' = 2"
    "unat (5 :: u64) - length ''Hi'' = 3"
    by simp_all
  have p: "fseek (plain_host 4096) 0 (offset ?a) = 0"
    by (simp add: fseek_def)
  have l: "length buf = 5"
    using b(2) by simp
  then have ne: "buf \<noteq> []"
    by auto
  have "take 2 buf = [0x48, 0x69]"
    using t unfolding n by (simp add: byte_of_def)
  moreover have "drop 2 buf = replicate 3 0x20"
    using d unfolding n by simp
  moreover have "pwrite (hole (plain_host 4096)) (replicate 8 9) 0 buf = buf @ replicate 3 9"
    using l ne by (simp add: pwrite_def)
  ultimately show ?thesis
    using b(1) l e w unfolding p by simp
qed

text \<open>
  The claim as it was stated fails in three ways. With \<^verbatim>\<open>-l -1\<close> the length is
  \<open>2^64 - 1\<close>, \<^verbatim>\<open>malloc(length + 1)\<close> is \<^verbatim>\<open>malloc(0)\<close>, no buffer of \<open>L\<close> bytes is
  produced and the run crashes. With \<^verbatim>\<open>-l 1099511627776\<close> on a host whose \<^verbatim>\<open>malloc\<close>
  gives no block of \<open>2^40 + 1\<close> bytes the run crashes in \<^verbatim>\<open>memset\<close>. And \<open>L\<close> bytes are
  not written to a file that does not take them: \<^verbatim>\<open>-f x -t str -l 100000 -d x\<close> on a
  full device leaves the file as it was.
\<close>

theorem str_encoder_breaks:
  "integer_for ''-1'' = 18446744073709551615
   \<and> str_buffer (plain_host 4096) ''Hi'' 18446744073709551615 0 = None
   \<and> status (main (plain_host 4096) [''x'' \<mapsto> [0, 0]]
        [(CHR ''f'', ''x''), (CHR ''t'', ''str''), (CHR ''d'', ''Hi''), (CHR ''l'', ''-1'')]) = Crash
   \<and> str_buffer (plain_host 4096) ''Hi'' 1099511627776 0 = None
   \<and> status (main (plain_host 4096) [''x'' \<mapsto> [0, 0]]
        [(CHR ''f'', ''x''), (CHR ''t'', ''str''), (CHR ''d'', ''Hi''),
         (CHR ''l'', ''1099511627776'')]) = Crash
   \<and> files (main (plain_host 0) [''x'' \<mapsto> [9, 9]]
        [(CHR ''f'', ''x''), (CHR ''t'', ''str''), (CHR ''l'', ''100000''), (CHR ''d'', ''x'')]) ''x''
      = Some [9, 9]"
  by (simp add: run_simps integer_for_words integer_for_large str_buffer_def byte_of_def fseek_def)

text \<open>
  C4. Wherever the two characters backslash, r stand in the input the decoder puts the one
  byte 0x0D, and for backslash, n the byte 0x0A; a backslash followed by any other
  character, or standing last, is copied as it is, and so is every character that is not
  a backslash: no other escape is recognised. Hence an input without a backslash is
  returned unchanged, and the four characters a, backslash, n, b decode to the three bytes
  a, 0x0A, b.
\<close>

theorem copystr_escapes:
  "copystr (p @ CHR 0x5C # CHR ''r'' # cs) = copystr p @ CHR 0x0D # copystr cs
   \<and> copystr (p @ CHR 0x5C # CHR ''n'' # cs) = copystr p @ CHR 0x0A # copystr cs
   \<and> (d \<noteq> CHR ''r'' \<and> d \<noteq> CHR ''n''
        \<longrightarrow> copystr (p @ CHR 0x5C # d # cs) = copystr p @ CHR 0x5C # copystr (d # cs))
   \<and> copystr (p @ [CHR 0x5C]) = copystr p @ [CHR 0x5C]
   \<and> (c \<noteq> CHR 0x5C \<longrightarrow> copystr (c # cs) = c # copystr cs)
   \<and> (CHR 0x5C \<notin> set s \<longrightarrow> copystr s = s)
   \<and> copystr [CHR ''a'', CHR 0x5C, CHR ''n'', CHR ''b''] = [CHR ''a'', CHR 0x0A, CHR ''b'']"
proof -
  have 1: "copystr (p @ CHR 0x5C # CHR ''r'' # cs) = copystr p @ CHR 0x0D # copystr cs"
    by (simp add: copystr_append_backslash)
  have 2: "copystr (p @ CHR 0x5C # CHR ''n'' # cs) = copystr p @ CHR 0x0A # copystr cs"
    by (simp add: copystr_append_backslash)
  have 3: "copystr (p @ CHR 0x5C # d # cs) = copystr p @ CHR 0x5C # copystr (d # cs)"
    if "d \<noteq> CHR ''r'' \<and> d \<noteq> CHR ''n''"
    using that by (simp add: copystr_append_backslash)
  have 4: "copystr (p @ [CHR 0x5C]) = copystr p @ [CHR 0x5C]"
    by (simp add: copystr_append_backslash)
  have 5: "copystr (c # cs) = c # copystr cs" if "c \<noteq> CHR 0x5C"
    using that by (cases cs) simp_all
  have 6: "copystr s = s" if "CHR 0x5C \<notin> set s"
    using that by (rule copystr_no_backslash)
  have 7: "copystr [CHR ''a'', CHR 0x5C, CHR ''n'', CHR ''b''] = [CHR ''a'', CHR 0x0A, CHR ''b'']"
    by simp
  from 1 2 3 4 5 6 7 show ?thesis by blast
qed

theorem copystr_escapes_witness:
  "copystr (''ab'' @ CHR 0x5C # CHR ''t'' # ''cd'') = copystr ''ab'' @ CHR 0x5C # copystr (CHR ''t'' # ''cd'')
   \<and> copystr (CHR ''x'' # [CHR 0x5C, CHR ''r'']) = CHR ''x'' # copystr [CHR 0x5C, CHR ''r'']
   \<and> copystr ''Hello, World!'' = ''Hello, World!''"
  using copystr_escapes [of "''ab''" "''cd''" "CHR ''t''" "CHR ''x''" "''Hello, World!''"]
    copystr_escapes [of "''ab''" "[CHR 0x5C, CHR ''r'']" "CHR ''t''" "CHR ''x''" "''Hello, World!''"]
  by simp

text \<open>
  C5. The claim says that the exit code is 0 exactly when the full encoded buffer was
  written and 3 exactly when fewer bytes than requested were written. \<^verbatim>\<open>main\<close> tests
  only what \<^verbatim>\<open>fwrite\<close> returns, which for a request that fits the stream's buffer is
  the full count, and does not look at the result of \<^verbatim>\<open>fclose\<close>, which sends the
  buffer to the file. With \<^verbatim>\<open>-f x -d 5\<close> on a full device \<^verbatim>\<open>fwrite\<close> returns 1, no
  byte is written and the exit code is 0; with \<^verbatim>\<open>-f x -t dd -d 2\<close> on a device that
  takes 2 bytes, 2 of the 4 bytes are written and the exit code is 0.
\<close>

theorem exit_zero_without_write:
  "status (main (plain_host 0) [''x'' \<mapsto> [9, 9]] [(CHR ''f'', ''x''), (CHR ''d'', ''5'')]) = Exit 0
   \<and> written (main (plain_host 0) [''x'' \<mapsto> [9, 9]] [(CHR ''f'', ''x''), (CHR ''d'', ''5'')])
      = Some (1, 1)
   \<and> files (main (plain_host 0) [''x'' \<mapsto> [9, 9]] [(CHR ''f'', ''x''), (CHR ''d'', ''5'')]) ''x''
      = Some [9, 9]
   \<and> status (main (plain_host 2) [''x'' \<mapsto> [9, 9, 9, 9, 9, 9]]
        [(CHR ''f'', ''x''), (CHR ''t'', ''dd''), (CHR ''d'', ''2'')]) = Exit 0
   \<and> files (main (plain_host 2) [''x'' \<mapsto> [9, 9, 9, 9, 9, 9]]
        [(CHR ''f'', ''x''), (CHR ''t'', ''dd''), (CHR ''d'', ''2'')]) ''x''
      = Some [2, 0, 9, 9, 9, 9]"
  by (simp add: run_simps integer_for_words integer_for_more int_bytes_db int_bytes_dd fseek_def)

text \<open>
  C6. The claim says that the stream is closed on every path after a successful
  \<^verbatim>\<open>fopen\<close>, the short write included. In \<^verbatim>\<open>main\<close> the two \<^verbatim>\<open>return 3\<close> leave
  without \<^verbatim>\<open>fclose(fp)\<close>, which only the path to \<^verbatim>\<open>return 0\<close> reaches. A run whose
  stream accepts nothing (\<^verbatim>\<open>-f /dev/full -t str -l 100000 -d x\<close>) ends with exit code 3
  and the stream still open; a run that writes everything ends with the stream closed.
\<close>

theorem short_write_leaves_stream_open:
  "status (main (plain_host 0) [''/dev/full'' \<mapsto> []]
     [(CHR ''f'', ''/dev/full''), (CHR ''t'', ''str''), (CHR ''l'', ''100000''), (CHR ''d'', ''x'')])
   = Exit 3
   \<and> fp (main (plain_host 0) [''/dev/full'' \<mapsto> []]
     [(CHR ''f'', ''/dev/full''), (CHR ''t'', ''str''), (CHR ''l'', ''100000''), (CHR ''d'', ''x'')])
   = Open
   \<and> fp (main (plain_host 2) [''x'' \<mapsto> [0, 0]]
        [(CHR ''f'', ''x''), (CHR ''t'', ''dw''), (CHR ''d'', ''2'')]) = Closed"
  by (simp add: run_simps integer_for_words integer_for_more str_buffer_def short_write_msg_def
      fseek_def int_bytes_dw)


text \<open>
  C8. For an input of length n the decoder's output has between ceil(n / 2) and n
  characters.
\<close>

theorem copystr_length_bounds:
  "(length s + 1) div 2 \<le> length (copystr s) \<and> length (copystr s) \<le> length s"
  using copystr_length_ge copystr_length_le by blast

text \<open>
  C9. A trailing backslash is copied to the output as it is; a replacement happens only
  for a backslash directly followed by r or n; and no run of the loop over the
  NUL-terminated argument reads outside the argument and its terminator: the memory-level
  loop returns, and returns what \<open>copystr\<close> computes.
\<close>

theorem copystr_trailing_backslash:
  "copystr (s @ [CHR 0x5C]) = copystr s @ [CHR 0x5C]
   \<and> (\<not> (c = CHR 0x5C \<and> (d = CHR ''r'' \<or> d = CHR ''n''))
        \<longrightarrow> copystr (c # d # cs) = c # copystr (d # cs))
   \<and> (CHR 0x00 \<notin> set s
        \<longrightarrow> copystr_mem ((s @ [CHR 0x5C]) @ [CHR 0x00]) 0 = Some (copystr (s @ [CHR 0x5C])))"
proof -
  have "copystr_mem ([] @ (s @ [CHR 0x5C]) @ [CHR 0x00]) (length ([] :: char list))
        = Some (copystr (s @ [CHR 0x5C]))" if "CHR 0x00 \<notin> set s"
    using that by (intro copystr_mem_copystr) simp
  then show ?thesis
    using copystr_snoc_backslash by simp
qed

theorem copystr_trailing_backslash_witness:
  "copystr (''ab'' @ [CHR 0x5C]) = ''ab'' @ [CHR 0x5C]
   \<and> copystr [CHR 0x5C, CHR ''x''] = [CHR 0x5C, CHR ''x'']
   \<and> copystr_mem ((''ab'' @ [CHR 0x5C]) @ [CHR 0x00]) 0 = Some (''ab'' @ [CHR 0x5C])"
  using copystr_trailing_backslash [of "''ab''" "CHR 0x5C" "CHR ''x''" "[]"]
  by simp

text \<open>
  C10. When the kind is \<^verbatim>\<open>str\<close> and the length is 0, in a run that reaches the write
  (a file was given and opened, and a payload was given), \<^verbatim>\<open>fwrite\<close> is asked for 0
  bytes and returns 0, the files are unchanged, the stream is closed and the exit code is
  0, whatever the stream would accept.
\<close>

theorem zero_length_str:
  assumes "scan_opts h opts init_vars = Some a" "type a = type_str" "length_arg a = 0"
    "file_path a = Some path" "fs path = Some content" "data_in a = Some d"
  shows "status (main h fs opts) = Exit 0 \<and> written (main h fs opts) = Some (0, 0)
    \<and> files (main h fs opts) = fs \<and> fp (main h fs opts) = Closed"
proof -
  have "str_buffer h d (length_arg a) (pad_value a) = Some []"
    using assms(3) by (simp add: str_buffer_0)
  from main_str [of h opts a path fs content d "[]", OF assms(1,4,5,2,6) this]
  show ?thesis
    using assms(3,5) by (simp add: Let_def pwrite_def fun_upd_idem)
qed

text \<open>
  The theorem on a stream that accepts no byte at all.
\<close>

theorem zero_length_str_witness:
  "status (main (plain_host 0) [''x'' \<mapsto> [1, 2, 3]]
     [(CHR ''f'', ''x''), (CHR ''t'', ''str''), (CHR ''l'', ''0''), (CHR ''d'', ''abc'')]) = Exit 0
   \<and> written (main (plain_host 0) [''x'' \<mapsto> [1, 2, 3]]
     [(CHR ''f'', ''x''), (CHR ''t'', ''str''), (CHR ''l'', ''0''), (CHR ''d'', ''abc'')]) = Some (0, 0)
   \<and> files (main (plain_host 0) [''x'' \<mapsto> [1, 2, 3]]
     [(CHR ''f'', ''x''), (CHR ''t'', ''str''), (CHR ''l'', ''0''), (CHR ''d'', ''abc'')])
     = [''x'' \<mapsto> [1, 2, 3]]"
  using zero_length_str [of "plain_host 0"
      "[(CHR ''f'', ''x''), (CHR ''t'', ''str''), (CHR ''l'', ''0''), (CHR ''d'', ''abc'')]"
      "\<lparr>file_path = Some ''x'', offset = 0, type = type_str, length_arg = 0, pad_value = 0,
            data_in = Some ''abc'', printed = [], complaints = []\<rparr>" "''x''" "[''x'' \<mapsto> [1, 2, 3]]" "[1, 2, 3]" "''abc''",
      OF scan_ex6]
  by simp

end
